theory Spec2Isabelle
  imports Main "HOL-Library.Sublist"
begin

section \<open>The pipeline definition of \<^verbatim>\<open>logistics.py\<close>\<close>

text \<open>
  The module builds one DAG object, six operators registered with it, and one chain of
  dependencies. Keyword arguments are kept as the source writes them: a Python dict is
  an association list, in the order of the source. The text of each Hive query is kept
  as its abstract syntax (one constructor per statement of the query).
\<close>

subsection \<open>Hive statements occurring in the job bodies\<close>

record table_def =
  td_external :: bool
  td_columns :: "(string \<times> string) list"
  td_partitioned_by :: "(string \<times> string) list"
  td_fields_terminated_by :: "string option"
  td_stored_as :: string
  td_location :: "string option"
  td_tblproperties :: "(string \<times> string) list"

datatype hive_stmt =
    CREATE_DATABASE_IF_NOT_EXISTS string
  | CREATE_TABLE_IF_NOT_EXISTS "string \<times> string" table_def
  | SET_PROPERTY string string
  | INSERT_INTO_SELECT "string \<times> string" "string list" "string list" "string \<times> string"

subsection \<open>Python values of the keyword arguments\<close>

datatype pyval =
    PStr string
  | PInt int
  | PBool bool
  | PTimedelta int
  | PDaysAgo int
  | PDict "(string \<times> pyval) list"
  | PList "pyval list"
  | PQuery "hive_stmt list"
  | PDagRef string

datatype op_class =
    GCSObjectsWithPrefixExistenceSensor
  | DataprocSubmitJobOperator
  | BashOperator

record operator =
  op_class :: op_class
  kwargs :: "(string \<times> pyval) list"

text \<open>\<^verbatim>\<open>default_args\<close>, lines 8 to 15; \<^verbatim>\<open>timedelta(minutes=1)\<close> is 60 seconds.\<close>

definition default_args :: "(string \<times> pyval) list" where
  "default_args =
     [(''owner'', PStr ''airflow''),
      (''depends_on_past'', PBool False),
      (''email_on_failure'', PBool False),
      (''email_on_retry'', PBool False),
      (''retries'', PInt 0),
      (''retry_delay'', PTimedelta 60)]"

text \<open>The arguments of the \<^verbatim>\<open>DAG(...)\<close> call, lines 17 to 24.\<close>

definition dag_kwargs :: "(string \<times> pyval) list" where
  "dag_kwargs =
     [(''dag_id'', PStr ''gcsarchive''),
      (''default_args'', PDict default_args),
      (''description'', PStr ''Load logistics data into Hive on GCP Dataproc''),
      (''schedule_interval'', PTimedelta 86400),
      (''start_date'', PDaysAgo 1),
      (''tags'', PList [PStr ''example''])]"

definition sense_logistics_file :: operator where
  "sense_logistics_file =
     \<lparr>op_class = GCSObjectsWithPrefixExistenceSensor,
      kwargs =
        [(''task_id'', PStr ''sense_logistics_file''),
         (''bucket'', PStr ''logistics_raw''),
         (''prefix'', PStr ''input_data/logistics_''),
         (''mode'', PStr ''poke''),
         (''timeout'', PInt 300),
         (''poke_interval'', PInt 30),
         (''dag'', PDagRef ''gcsarchive'')]\<rparr>"

definition create_hive_database :: operator where
  "create_hive_database =
     \<lparr>op_class = DataprocSubmitJobOperator,
      kwargs =
        [(''task_id'', PStr ''create_hive_database''),
         (''job'', PDict
            [(''reference'', PDict
                [(''project_id'', PStr ''harshapersonal''),
                 (''job_id'', PStr ''create-hive-db'')]),
             (''placement'', PDict [(''cluster_name'', PStr ''cluster-c27e'')]),
             (''hive_job'', PDict
                [(''query_list'', PDict
                    [(''queries'', PList
                        [PQuery [CREATE_DATABASE_IF_NOT_EXISTS ''logistics_db'']])])])]),
         (''region'', PStr ''us-central1''),
         (''project_id'', PStr ''harshapersonal''),
         (''dag'', PDagRef ''gcsarchive'')]\<rparr>"

definition logistics_data_schema :: table_def where
  "logistics_data_schema =
     \<lparr>td_external = True,
      td_columns =
        [(''delivery_id'', ''INT''), (''date'', ''STRING''), (''origin'', ''STRING''),
         (''destination'', ''STRING''), (''vehicle_type'', ''STRING''),
         (''delivery_status'', ''STRING''), (''delivery_time'', ''STRING'')],
      td_partitioned_by = [],
      td_fields_terminated_by = Some '','',
      td_stored_as = ''TEXTFILE'',
      td_location = Some ''gs://logistics_raw/input_data/'',
      td_tblproperties = [(''skip.header.line.count'', ''1'')]\<rparr>"

definition create_hive_table :: operator where
  "create_hive_table =
     \<lparr>op_class = DataprocSubmitJobOperator,
      kwargs =
        [(''task_id'', PStr ''create_hive_table''),
         (''job'', PDict
            [(''reference'', PDict
                [(''project_id'', PStr ''harshapersonal''),
                 (''job_id'', PStr ''create-hive-table'')]),
             (''placement'', PDict [(''cluster_name'', PStr ''cluster-c27e'')]),
             (''hive_job'', PDict
                [(''query_list'', PDict
                    [(''queries'', PList
                        [PQuery [CREATE_TABLE_IF_NOT_EXISTS
                                   (''logistics_db'', ''logistics_data'')
                                   logistics_data_schema]])])])]),
         (''region'', PStr ''us-central1''),
         (''project_id'', PStr ''harshapersonal''),
         (''dag'', PDagRef ''gcsarchive'')]\<rparr>"

definition logistics_data_partitioned_schema :: table_def where
  "logistics_data_partitioned_schema =
     \<lparr>td_external = False,
      td_columns =
        [(''delivery_id'', ''INT''), (''origin'', ''STRING''),
         (''destination'', ''STRING''), (''vehicle_type'', ''STRING''),
         (''delivery_status'', ''STRING''), (''delivery_time'', ''STRING'')],
      td_partitioned_by = [(''date'', ''STRING'')],
      td_fields_terminated_by = None,
      td_stored_as = ''TEXTFILE'',
      td_location = None,
      td_tblproperties = []\<rparr>"

definition create_partitioned_table :: operator where
  "create_partitioned_table =
     \<lparr>op_class = DataprocSubmitJobOperator,
      kwargs =
        [(''task_id'', PStr ''create_partitioned_table''),
         (''job'', PDict
            [(''reference'', PDict
                [(''project_id'', PStr ''harshapersonal''),
                 (''job_id'', PStr ''create-partitioned-table'')]),
             (''placement'', PDict [(''cluster_name'', PStr ''cluster-c27e'')]),
             (''hive_job'', PDict
                [(''query_list'', PDict
                    [(''queries'', PList
                        [PQuery [CREATE_TABLE_IF_NOT_EXISTS
                                   (''logistics_db'', ''logistics_data_partitioned'')
                                   logistics_data_partitioned_schema]])])])]),
         (''region'', PStr ''us-central1''),
         (''project_id'', PStr ''harshapersonal''),
         (''dag'', PDagRef ''gcsarchive'')]\<rparr>"

definition set_hive_properties_and_load_partitioned :: operator where
  "set_hive_properties_and_load_partitioned =
     \<lparr>op_class = DataprocSubmitJobOperator,
      kwargs =
        [(''task_id'', PStr ''set_hive_properties_and_load_partitioned''),
         (''job'', PDict
            [(''reference'', PDict
                [(''project_id'', PStr ''harshapersonal''),
                 (''job_id'', PStr ''set-hive-properties'')]),
             (''placement'', PDict [(''cluster_name'', PStr ''cluster-c27e'')]),
             (''hive_job'', PDict
                [(''query_list'', PDict
                    [(''queries'', PList
                        [PQuery
                           [SET_PROPERTY ''hive.exec.dynamic.partition'' ''true'',
                            SET_PROPERTY ''hive.exec.dynamic.partition.mode'' ''nonstrict'',
                            INSERT_INTO_SELECT
                              (''logistics_db'', ''logistics_data_partitioned'')
                              [''date'']
                              [''delivery_id'', ''origin'', ''destination'', ''vehicle_type'',
                               ''delivery_status'', ''delivery_time'', ''date'']
                              (''logistics_db'', ''logistics_data'')]])])])]),
         (''region'', PStr ''us-central1''),
         (''project_id'', PStr ''harshapersonal''),
         (''dag'', PDagRef ''gcsarchive'')]\<rparr>"

definition archive_processed_file :: operator where
  "archive_processed_file =
     \<lparr>op_class = BashOperator,
      kwargs =
        [(''task_id'', PStr ''archive_processed_file''),
         (''bash_command'', PStr
            ''gsutil -m mv gs://logistics_raw/input_data/logistics_*.csv gs://logistics_archive/''),
         (''dag'', PDagRef ''gcsarchive'')]\<rparr>"

subsection \<open>The DAG object: registered tasks and dependency edges\<close>

record dag_state =
  dag_args :: "(string \<times> pyval) list"
  tasks :: "operator list"
  edges :: "(string \<times> string) list"

fun str_of :: "pyval option \<Rightarrow> string option" where
  "str_of (Some (PStr s)) = Some s"
| "str_of _ = None"

fun int_of :: "pyval option \<Rightarrow> int option" where
  "int_of (Some (PInt i)) = Some i"
| "int_of _ = None"

fun dict_get :: "pyval option \<Rightarrow> string \<Rightarrow> pyval option" where
  "dict_get (Some (PDict kvs)) k = map_of kvs k"
| "dict_get _ k = None"

definition task_id :: "operator \<Rightarrow> string" where
  "task_id t = (case str_of (map_of (kwargs t) ''task_id'') of Some s \<Rightarrow> s | None \<Rightarrow> [])"

text \<open>
  An operator constructed with \<^verbatim>\<open>dag=dag\<close> is added to the DAG's tasks, in the order
  of construction.
\<close>

definition add_task :: "operator \<Rightarrow> dag_state \<Rightarrow> dag_state" where
  "add_task t d = d\<lparr>tasks := tasks d @ [t]\<rparr>"

text \<open>
  \<^verbatim>\<open>a >> b\<close> records that \<^verbatim>\<open>b\<close> is downstream of \<^verbatim>\<open>a\<close> and evaluates to \<^verbatim>\<open>b\<close>, so that
  \<^verbatim>\<open>a >> b >> c\<close>, read from the left, records \<^verbatim>\<open>(a, b)\<close> and then \<^verbatim>\<open>(b, c)\<close>.
  Downstream tasks are a set in the source library: recording an edge twice changes
  nothing.
\<close>

definition rshift :: "operator \<times> dag_state \<Rightarrow> operator \<Rightarrow> operator \<times> dag_state" where
  "rshift ad b =
     (let a = fst ad; d = snd ad; e = (task_id a, task_id b)
      in (b, if e \<in> set (edges d) then d else d\<lparr>edges := edges d @ [e]\<rparr>))"

definition dag0 :: dag_state where
  "dag0 = \<lparr>dag_args = dag_kwargs, tasks = [], edges = []\<rparr>"

text \<open>The module after line 165: the six operators registered, no dependency yet.\<close>

definition dag_constructed :: dag_state where
  "dag_constructed =
     add_task archive_processed_file
      (add_task set_hive_properties_and_load_partitioned
        (add_task create_partitioned_table
          (add_task create_hive_table
            (add_task create_hive_database
              (add_task sense_logistics_file dag0)))))"

text \<open>Line 168, the chain of \<^verbatim>\<open>>>\<close>, evaluated from the left.\<close>

definition dag :: dag_state where
  "dag =
     snd (rshift (rshift (rshift (rshift (rshift
            (sense_logistics_file, dag_constructed)
            create_hive_database)
            create_hive_table)
            create_partitioned_table)
            set_hive_properties_and_load_partitioned)
            archive_processed_file)"


subsection \<open>Steps, as the specification names them\<close>

datatype step_kind = sense | submit_job | archive

fun kind_of :: "operator \<Rightarrow> step_kind" where
  "kind_of t =
     (case op_class t of
        GCSObjectsWithPrefixExistenceSensor \<Rightarrow> sense
      | DataprocSubmitJobOperator \<Rightarrow> submit_job
      | BashOperator \<Rightarrow> archive)"

record sense_condition =
  sc_bucket :: string
  sc_prefix :: string
  sc_poke_interval :: int
  sc_timeout :: int

definition sense_condition_of :: "operator \<Rightarrow> sense_condition option" where
  "sense_condition_of t =
     (case (str_of (map_of (kwargs t) ''bucket''), str_of (map_of (kwargs t) ''prefix''),
            int_of (map_of (kwargs t) ''poke_interval''), int_of (map_of (kwargs t) ''timeout'')) of
        (Some b, Some p, Some i, Some tmo) \<Rightarrow>
          Some \<lparr>sc_bucket = b, sc_prefix = p, sc_poke_interval = i, sc_timeout = tmo\<rparr>
      | _ \<Rightarrow> None)"

definition sense_condition_ok :: "sense_condition \<Rightarrow> bool" where
  "sense_condition_ok c = (0 < sc_poke_interval c \<and> sc_poke_interval c \<le> sc_timeout c)"

record execution_site =
  es_region :: string
  es_cluster_name :: string
  es_project_id :: string
  es_reference_project_id :: string

definition execution_site_of :: "operator \<Rightarrow> execution_site option" where
  "execution_site_of t =
     (let job = map_of (kwargs t) ''job'' in
      case (str_of (map_of (kwargs t) ''region''),
            str_of (dict_get (dict_get job ''placement'') ''cluster_name''),
            str_of (map_of (kwargs t) ''project_id''),
            str_of (dict_get (dict_get job ''reference'') ''project_id'')) of
        (Some r, Some c, Some p, Some rp) \<Rightarrow>
          Some \<lparr>es_region = r, es_cluster_name = c, es_project_id = p,
                es_reference_project_id = rp\<rparr>
      | _ \<Rightarrow> None)"

text \<open>
  The dependencies of a task, read off the recorded edges, and the test that a
  sequence of task ids runs every task after the tasks it depends on.
\<close>

definition downstream :: "dag_state \<Rightarrow> operator \<Rightarrow> string list" where
  "downstream d t = map snd (filter (\<lambda>e. fst e = task_id t) (edges d))"

definition upstream :: "dag_state \<Rightarrow> operator \<Rightarrow> string list" where
  "upstream d t = map fst (filter (\<lambda>e. snd e = task_id t) (edges d))"

fun precedes :: "'a \<Rightarrow> 'a \<Rightarrow> 'a list \<Rightarrow> bool" where
  "precedes a b [] = False"
| "precedes a b (x # xs) = (if x = a then b \<in> set xs else precedes a b xs)"

definition respects_edges :: "dag_state \<Rightarrow> string list \<Rightarrow> bool" where
  "respects_edges d xs = list_all (\<lambda>e. precedes (fst e) (snd e) xs) (edges d)"

lemmas operator_defs =
  sense_logistics_file_def create_hive_database_def create_hive_table_def
  create_partitioned_table_def set_hive_properties_and_load_partitioned_def
  archive_processed_file_def

lemma dag_tasks:
  "tasks dag =
     [sense_logistics_file, create_hive_database, create_hive_table,
      create_partitioned_table, set_hive_properties_and_load_partitioned,
      archive_processed_file]"
  by (simp add: dag_def dag_constructed_def dag0_def add_task_def rshift_def Let_def)

lemma task_ids:
  "map task_id (tasks dag) =
     [''sense_logistics_file'', ''create_hive_database'', ''create_hive_table'',
      ''create_partitioned_table'', ''set_hive_properties_and_load_partitioned'',
      ''archive_processed_file'']"
  by (simp add: dag_tasks task_id_def operator_defs)

lemma dag_edges:
  "edges dag =
     [(''sense_logistics_file'', ''create_hive_database''),
      (''create_hive_database'', ''create_hive_table''),
      (''create_hive_table'', ''create_partitioned_table''),
      (''create_partitioned_table'', ''set_hive_properties_and_load_partitioned''),
      (''set_hive_properties_and_load_partitioned'', ''archive_processed_file'')]"
  by (simp add: dag_def dag_constructed_def dag0_def add_task_def rshift_def Let_def
      task_id_def operator_defs)

section \<open>Configured values\<close>

text \<open>
  C8. The sense condition configured for \<^verbatim>\<open>sense_logistics_file\<close> has poll interval 30
  and timeout 300, and satisfies the invariant of the data model: the interval is
  strictly positive and at most the timeout.
\<close>

theorem C8_sense_condition_invariant:
  "sense_condition_of sense_logistics_file =
     Some \<lparr>sc_bucket = ''logistics_raw'', sc_prefix = ''input_data/logistics_'',
           sc_poke_interval = 30, sc_timeout = 300\<rparr>
   \<and> sense_condition_ok (the (sense_condition_of sense_logistics_file))"
  by (simp add: sense_condition_of_def sense_logistics_file_def sense_condition_ok_def)

text \<open>
  C9. The DAG has exactly four job-submission steps, and each of them names the same
  execution site: region \<^verbatim>\<open>us-central1\<close>, cluster \<^verbatim>\<open>cluster-c27e\<close>, project
  \<^verbatim>\<open>harshapersonal\<close> (both as the operator's project and in the job's reference).
\<close>

theorem C9_same_execution_site:
  "map execution_site_of (filter (\<lambda>t. kind_of t = submit_job) (tasks dag)) =
     replicate 4
       (Some \<lparr>es_region = ''us-central1'', es_cluster_name = ''cluster-c27e'',
              es_project_id = ''harshapersonal'',
              es_reference_project_id = ''harshapersonal''\<rparr>)"
  by (simp add: dag_tasks operator_defs execution_site_of_def numeral_eq_Suc)


section \<open>The dependency chain\<close>

lemma precedes_later: "precedes a b (y # ys) \<Longrightarrow> y \<noteq> a \<Longrightarrow> b \<in> set ys"
  by (induction ys arbitrary: y) (auto split: if_splits)

lemma zip_tl_second:
  assumes "y \<in> set c" "distinct (a # c)"
  shows "\<exists>p. (p, y) \<in> set (zip (a # c) c) \<and> p \<noteq> y"
proof -
  from assms(1) obtain i where i: "i < length c" "c ! i = y"
    by (auto simp: in_set_conv_nth)
  have "((a # c) ! i, c ! i) \<in> set (zip (a # c) c)"
    using i(1) by (auto simp: in_set_zip intro!: exI[of _ i])
  moreover have "(a # c) ! i \<noteq> (a # c) ! Suc i"
    using assms(2) i(1) by (metis Suc_lessD Suc_less_eq length_Cons n_not_Suc_n nth_eq_iff_index_eq)
  ultimately show ?thesis using i(2) by auto
qed

text \<open>
  A sequence without repetition that holds the elements of a chain and puts each
  element after its predecessor in the chain is the chain itself.
\<close>

lemma chain_order_unique:
  "distinct c \<Longrightarrow> distinct xs \<Longrightarrow> set xs = set c \<Longrightarrow>
   list_all (\<lambda>e. precedes (fst e) (snd e) xs) (zip c (tl c)) \<Longrightarrow> xs = c"
proof (induction c arbitrary: xs)
  case Nil
  then show ?case by simp
next
  case (Cons a c)
  then obtain y ys where xs: "xs = y # ys" by (cases xs) auto
  have all: "\<And>p q. (p, q) \<in> set (zip (a # c) c) \<Longrightarrow> precedes p q xs"
    using Cons.prems(4) by (auto simp: list_all_iff)
  have ya: "y = a"
  proof (rule ccontr)
    assume "y \<noteq> a"
    then have "y \<in> set c" using Cons.prems(3) xs by auto
    then obtain p where p: "(p, y) \<in> set (zip (a # c) c)" "p \<noteq> y"
      using zip_tl_second Cons.prems(1) by metis
    then have "precedes p y (y # ys)" using all xs by simp
    then have "y \<in> set ys" using p(2) precedes_later by metis
    then show False using Cons.prems(2) xs by simp
  qed
  have d: "distinct ys" "set ys = set c"
    using Cons.prems xs ya by auto
  have "list_all (\<lambda>e. precedes (fst e) (snd e) ys) (zip c (tl c))"
    unfolding list_all_iff
  proof
    fix e assume e: "e \<in> set (zip c (tl c))"
    then have "fst e \<in> set c" by (metis prod.collapse set_zip_leftD)
    then have ne: "fst e \<noteq> a" using Cons.prems(1) by auto
    have "e \<in> set (zip (a # c) c)" using e by (cases c) auto
    then have "precedes (fst e) (snd e) xs" using all[of "fst e" "snd e"] by simp
    then have "precedes (fst e) (snd e) (a # ys)" using xs ya by simp
    then show "precedes (fst e) (snd e) ys" using ne by simp
  qed
  then have "ys = c" using Cons.IH d Cons.prems(1) by simp
  then show ?case using xs ya by simp
qed

text \<open>
  C2. The configured pipeline is one linear chain without branching. In order: the
  sense step, the four job-submission steps (create database, create table, create
  partitioned table, load partitioned), the archive step. Every step has at most one
  direct successor and at most one direct predecessor, and the only order of the six
  steps in which each runs after the step it depends on is this one, the sense step
  first.
\<close>

theorem C2_linear_chain:
  "map task_id (tasks dag) =
     [''sense_logistics_file'', ''create_hive_database'', ''create_hive_table'',
      ''create_partitioned_table'', ''set_hive_properties_and_load_partitioned'',
      ''archive_processed_file'']
   \<and> map kind_of (tasks dag) = [sense, submit_job, submit_job, submit_job, submit_job, archive]
   \<and> map (downstream dag) (tasks dag) =
       [[''create_hive_database''], [''create_hive_table''], [''create_partitioned_table''],
        [''set_hive_properties_and_load_partitioned''], [''archive_processed_file''], []]
   \<and> map (upstream dag) (tasks dag) =
       [[], [''sense_logistics_file''], [''create_hive_database''], [''create_hive_table''],
        [''create_partitioned_table''], [''set_hive_properties_and_load_partitioned'']]
   \<and> (\<forall>xs. distinct xs \<and> set xs = set (map task_id (tasks dag)) \<and> respects_edges dag xs
         \<longrightarrow> xs = map task_id (tasks dag))"
proof -
  have k: "map kind_of (tasks dag) = [sense, submit_job, submit_job, submit_job, submit_job, archive]"
    by (simp add: dag_tasks operator_defs)
  have dn: "map (downstream dag) (tasks dag) =
       [[''create_hive_database''], [''create_hive_table''], [''create_partitioned_table''],
        [''set_hive_properties_and_load_partitioned''], [''archive_processed_file''], []]"
    by (simp add: dag_tasks downstream_def dag_edges task_id_def operator_defs)
  have up: "map (upstream dag) (tasks dag) =
       [[], [''sense_logistics_file''], [''create_hive_database''], [''create_hive_table''],
        [''create_partitioned_table''], [''set_hive_properties_and_load_partitioned'']]"
    by (simp add: dag_tasks upstream_def dag_edges task_id_def operator_defs)
  have z: "edges dag = zip (map task_id (tasks dag)) (tl (map task_id (tasks dag)))"
    by (simp add: task_ids dag_edges)
  have dc: "distinct (map task_id (tasks dag))"
    by (simp add: task_ids)
  have u: "\<forall>xs. distinct xs \<and> set xs = set (map task_id (tasks dag)) \<and> respects_edges dag xs
         \<longrightarrow> xs = map task_id (tasks dag)"
    unfolding respects_edges_def z using chain_order_unique[OF dc] by blast
  show ?thesis using task_ids k dn up u by blast
qed

text \<open>
  The order of the chain itself satisfies the three conditions on a run order, and
  the reverse order (archive first) is refused by the dependency test.
\<close>

theorem C2_linear_chain_witness:
  "distinct (map task_id (tasks dag))
   \<and> respects_edges dag (map task_id (tasks dag))
   \<and> \<not> respects_edges dag (rev (map task_id (tasks dag)))
   \<and> map task_id (tasks dag) =
       [''sense_logistics_file'', ''create_hive_database'', ''create_hive_table'',
        ''create_partitioned_table'', ''set_hive_properties_and_load_partitioned'',
        ''archive_processed_file'']"
proof -
  have d: "distinct (map task_id (tasks dag))"
    by (simp add: task_ids)
  have r: "respects_edges dag (map task_id (tasks dag))"
    by (simp add: respects_edges_def task_ids dag_edges)
  have n: "\<not> respects_edges dag (rev (map task_id (tasks dag)))"
    by (simp add: respects_edges_def task_ids dag_edges)
  from C2_linear_chain have
    "distinct (map task_id (tasks dag)) \<and> set (map task_id (tasks dag)) = set (map task_id (tasks dag))
       \<and> respects_edges dag (map task_id (tasks dag))
     \<longrightarrow> map task_id (tasks dag) =
       [''sense_logistics_file'', ''create_hive_database'', ''create_hive_table'',
        ''create_partitioned_table'', ''set_hive_properties_and_load_partitioned'',
        ''archive_processed_file'']"
    by simp
  with d r n show ?thesis by simp
qed

section \<open>Object names: what the sensor accepts and what the archive command moves\<close>

text \<open>
  The sensor is satisfied by an object of its bucket whose name starts with its prefix.
  The archive step runs \<^verbatim>\<open>gsutil -m mv SOURCE DESTINATION\<close>; the source is a URL
  \<^verbatim>\<open>gs://bucket/pattern\<close>, and in the pattern \<^verbatim>\<open>*\<close> stands for any run of characters
  other than \<^verbatim>\<open>/\<close> (the pattern of the source uses no other wildcard).
\<close>

record gcs_object =
  ob_bucket :: string
  ob_name :: string

fun split_on :: "char \<Rightarrow> string \<Rightarrow> string list" where
  "split_on c [] = [[]]"
| "split_on c (x # xs) =
     (if x = c then [] # split_on c xs
      else (case split_on c xs of [] \<Rightarrow> [[x]] | w # ws \<Rightarrow> (x # w) # ws))"

definition gs_url_split :: "string \<Rightarrow> (string \<times> string) option" where
  "gs_url_split u =
     (if take 5 u = ''gs://''
      then Some (takeWhile (\<lambda>c. c \<noteq> CHR ''/'') (drop 5 u),
                 drop 1 (dropWhile (\<lambda>c. c \<noteq> CHR ''/'') (drop 5 u)))
      else None)"

definition mv_arguments :: "operator \<Rightarrow> (string \<times> string) option" where
  "mv_arguments t =
     (case str_of (map_of (kwargs t) ''bash_command'') of
        None \<Rightarrow> None
      | Some cmd \<Rightarrow>
          (let ws = split_on CHR '' '' cmd
           in if length ws = 5 \<and> take 3 ws = [''gsutil'', ''-m'', ''mv'']
              then Some (ws ! 3, ws ! 4) else None))"

fun glob_match :: "string \<Rightarrow> string \<Rightarrow> bool" where
  "glob_match [] s = (s = [])"
| "glob_match (p # ps) [] = (p = CHR ''*'' \<and> glob_match ps [])"
| "glob_match (p # ps) (c # cs) =
     (if p = CHR ''*''
      then glob_match ps (c # cs) \<or> (c \<noteq> CHR ''/'' \<and> glob_match (p # ps) cs)
      else p = c \<and> glob_match ps cs)"

definition archive_matches :: "operator \<Rightarrow> gcs_object \<Rightarrow> bool" where
  "archive_matches t ob =
     (case mv_arguments t of
        None \<Rightarrow> False
      | Some (src, dst) \<Rightarrow>
          (case gs_url_split src of
             None \<Rightarrow> False
           | Some (b, pat) \<Rightarrow> ob_bucket ob = b \<and> glob_match pat (ob_name ob)))"

definition sense_matches :: "operator \<Rightarrow> gcs_object \<Rightarrow> bool" where
  "sense_matches t ob =
     (case sense_condition_of t of
        None \<Rightarrow> False
      | Some c \<Rightarrow> ob_bucket ob = sc_bucket c \<and> prefix (sc_prefix c) (ob_name ob))"

definition poke :: "operator \<Rightarrow> gcs_object list \<Rightarrow> bool" where
  "poke t store = list_ex (sense_matches t) store"

lemma mv_arguments_archive:
  "mv_arguments archive_processed_file =
     Some (''gs://logistics_raw/input_data/logistics_*.csv'', ''gs://logistics_archive/'')"
  by (simp add: mv_arguments_def archive_processed_file_def)

lemma gs_url_split_source:
  "gs_url_split ''gs://logistics_raw/input_data/logistics_*.csv'' =
     Some (''logistics_raw'', ''input_data/logistics_*.csv'')"
  by (simp add: gs_url_split_def)

lemma archive_matches_eq:
  "archive_matches archive_processed_file ob =
     (ob_bucket ob = ''logistics_raw'' \<and> glob_match ''input_data/logistics_*.csv'' (ob_name ob))"
  by (simp add: archive_matches_def mv_arguments_archive gs_url_split_source)

lemma sense_matches_eq:
  "sense_matches sense_logistics_file ob =
     (ob_bucket ob = ''logistics_raw'' \<and> prefix ''input_data/logistics_'' (ob_name ob))"
  by (simp add: sense_matches_def sense_condition_of_def sense_logistics_file_def)

text \<open>A pattern that starts with literal characters only matches names that start with them.\<close>

lemma glob_literal_prefix:
  "CHR ''*'' \<notin> set p \<Longrightarrow> glob_match (p @ q) s \<Longrightarrow> \<exists>r. s = p @ r \<and> glob_match q r"
proof (induction p arbitrary: s)
  case Nil
  then show ?case by simp
next
  case (Cons a p)
  then show ?case by (cases s) auto
qed

lemma archived_is_sensed:
  assumes a: "archive_matches archive_processed_file ob"
  shows "sense_matches sense_logistics_file ob"
proof -
  have "glob_match (''input_data/logistics_'' @ ''*.csv'') (ob_name ob)"
    using a by (simp add: archive_matches_eq)
  then obtain r where "ob_name ob = ''input_data/logistics_'' @ r"
    using glob_literal_prefix[of "''input_data/logistics_''" "''*.csv''" "ob_name ob"] by auto
  then have "prefix ''input_data/logistics_'' (ob_name ob)"
    by (metis prefixI)
  then show ?thesis using a by (simp add: archive_matches_eq sense_matches_eq)
qed

text \<open>
  C10. Every object the archive command moves is an object that satisfies the sensor,
  and not the other way round: the object \<^verbatim>\<open>input_data/logistics_2024.txt\<close> of bucket
  \<^verbatim>\<open>logistics_raw\<close> satisfies the sensor and is not matched by the archive pattern.
  With that object alone in the bucket the sensor's check is positive and the archive
  pattern matches no object.
\<close>

theorem C10_archived_strictly_within_sensed:
  "(\<forall>ob. archive_matches archive_processed_file ob \<longrightarrow> sense_matches sense_logistics_file ob)
   \<and> sense_matches sense_logistics_file
        \<lparr>ob_bucket = ''logistics_raw'', ob_name = ''input_data/logistics_2024.txt''\<rparr>
   \<and> \<not> archive_matches archive_processed_file
        \<lparr>ob_bucket = ''logistics_raw'', ob_name = ''input_data/logistics_2024.txt''\<rparr>
   \<and> poke sense_logistics_file
        [\<lparr>ob_bucket = ''logistics_raw'', ob_name = ''input_data/logistics_2024.txt''\<rparr>]
   \<and> filter (archive_matches archive_processed_file)
        [\<lparr>ob_bucket = ''logistics_raw'', ob_name = ''input_data/logistics_2024.txt''\<rparr>] = []"
proof -
  have s: "sense_matches sense_logistics_file
        \<lparr>ob_bucket = ''logistics_raw'', ob_name = ''input_data/logistics_2024.txt''\<rparr>"
    by (simp add: sense_matches_eq)
  have n: "\<not> archive_matches archive_processed_file
        \<lparr>ob_bucket = ''logistics_raw'', ob_name = ''input_data/logistics_2024.txt''\<rparr>"
    by (simp add: archive_matches_eq)
  show ?thesis using archived_is_sensed s n by (simp add: poke_def)
qed

text \<open>The object \<^verbatim>\<open>input_data/logistics_2024.csv\<close> is moved by the archive command, hence sensed.\<close>

theorem C10_archived_strictly_within_sensed_witness:
  "archive_matches archive_processed_file
     \<lparr>ob_bucket = ''logistics_raw'', ob_name = ''input_data/logistics_2024.csv''\<rparr>
   \<and> sense_matches sense_logistics_file
     \<lparr>ob_bucket = ''logistics_raw'', ob_name = ''input_data/logistics_2024.csv''\<rparr>"
proof -
  have a: "archive_matches archive_processed_file
     \<lparr>ob_bucket = ''logistics_raw'', ob_name = ''input_data/logistics_2024.csv''\<rparr>"
    by (simp add: archive_matches_eq)
  with C10_archived_strictly_within_sensed show ?thesis by blast
qed

section \<open>The job bodies on a Hive warehouse\<close>

text \<open>
  The external state the four job bodies act on: the databases and tables of the Hive
  warehouse, the rows of each managed table, and the rows readable from the files under
  a storage location (an external table has no rows of its own: it is read from its
  location). A job is one Hive session: it starts from the cluster's configuration,
  \<^verbatim>\<open>SET\<close> changes a property for the rest of the session, the statements run in order
  and the first failing statement ends the job, leaving the warehouse as the earlier
  statements left it. Cell values are kept as text, \<open>None\<close> for NULL.
\<close>

type_synonym cell = "string option"
type_synonym hrow = "cell list"

record hive_table =
  ht_def :: table_def
  ht_rows :: "hrow list"

record warehouse =
  wh_files :: "string \<Rightarrow> hrow list"
  wh_site :: "string \<Rightarrow> string"
  wh_databases :: "string set"
  wh_tables :: "string \<times> string \<Rightarrow> hive_table option"

datatype hive_error =
    NoSuchDatabase string
  | NoSuchTable "string \<times> string"
  | PartitionSpecMismatch
  | DynamicPartitionDisabled
  | DynamicPartitionStrictMode
  | InvalidColumn
  | ColumnCountMismatch

definition column_names :: "table_def \<Rightarrow> string list" where
  "column_names d = map fst (td_columns d @ td_partitioned_by d)"

definition scan :: "warehouse \<Rightarrow> hive_table \<Rightarrow> hrow list" where
  "scan wh t = (case td_location (ht_def t) of Some loc \<Rightarrow> wh_files wh loc | None \<Rightarrow> ht_rows t)"

definition project :: "string list \<Rightarrow> string list \<Rightarrow> hrow \<Rightarrow> hrow" where
  "project cols sel r = map (\<lambda>c. case map_of (zip cols r) c of Some v \<Rightarrow> v | None \<Rightarrow> None) sel"

text \<open>
  \<^verbatim>\<open>CREATE ... IF NOT EXISTS\<close> changes nothing when the object exists. \<^verbatim>\<open>INSERT INTO\<close>
  adds the selected rows to the rows the target already holds; with every partition
  column dynamic it needs dynamic partitioning enabled and non-strict in the session.
\<close>

fun exec_stmt ::
  "hive_stmt \<Rightarrow> (string \<Rightarrow> string) \<times> warehouse \<Rightarrow> hive_error + (string \<Rightarrow> string) \<times> warehouse" where
  "exec_stmt (CREATE_DATABASE_IF_NOT_EXISTS d) (s, wh) =
     (if d \<in> wh_databases wh then Inr (s, wh)
      else Inr (s, wh\<lparr>wh_databases := insert d (wh_databases wh)\<rparr>))"
| "exec_stmt (CREATE_TABLE_IF_NOT_EXISTS n def) (s, wh) =
     (if fst n \<notin> wh_databases wh then Inl (NoSuchDatabase (fst n))
      else (case wh_tables wh n of
              Some t \<Rightarrow> Inr (s, wh)
            | None \<Rightarrow>
                Inr (s, wh\<lparr>wh_tables := (wh_tables wh)(n \<mapsto> \<lparr>ht_def = def, ht_rows = []\<rparr>)\<rparr>)))"
| "exec_stmt (SET_PROPERTY k v) (s, wh) = Inr (s(k := v), wh)"
| "exec_stmt (INSERT_INTO_SELECT dst parts sel src) (s, wh) =
     (case wh_tables wh dst of
        None \<Rightarrow> Inl (NoSuchTable dst)
      | Some d \<Rightarrow>
          (case wh_tables wh src of
             None \<Rightarrow> Inl (NoSuchTable src)
           | Some sr \<Rightarrow>
               if parts \<noteq> map fst (td_partitioned_by (ht_def d)) then Inl PartitionSpecMismatch
               else if parts \<noteq> [] \<and> s ''hive.exec.dynamic.partition'' \<noteq> ''true''
                 then Inl DynamicPartitionDisabled
               else if parts \<noteq> [] \<and> s ''hive.exec.dynamic.partition.mode'' \<noteq> ''nonstrict''
                 then Inl DynamicPartitionStrictMode
               else if \<not> set sel \<subseteq> set (column_names (ht_def sr)) then Inl InvalidColumn
               else if length sel \<noteq> length (column_names (ht_def d)) then Inl ColumnCountMismatch
               else Inr (s, wh\<lparr>wh_tables := (wh_tables wh)(dst \<mapsto>
                      d\<lparr>ht_rows := ht_rows d @
                          map (project (column_names (ht_def sr)) sel) (scan wh sr)\<rparr>)\<rparr>)))"

fun exec_stmts ::
  "hive_stmt list \<Rightarrow> (string \<Rightarrow> string) \<times> warehouse \<Rightarrow> hive_error \<times> warehouse + warehouse" where
  "exec_stmts [] sw = Inr (snd sw)"
| "exec_stmts (x # xs) sw =
     (case exec_stmt x sw of Inl e \<Rightarrow> Inl (e, snd sw) | Inr sw' \<Rightarrow> exec_stmts xs sw')"

fun queries_of :: "pyval option \<Rightarrow> hive_stmt list" where
  "queries_of (Some (PList qs)) = concat (map (\<lambda>q. case q of PQuery ss \<Rightarrow> ss | _ \<Rightarrow> []) qs)"
| "queries_of _ = []"

definition job_statements :: "operator \<Rightarrow> hive_stmt list" where
  "job_statements t =
     queries_of (dict_get (dict_get (dict_get (map_of (kwargs t) ''job'') ''hive_job'')
                   ''query_list'') ''queries'')"

text \<open>
  The body of a job-submission step run on a warehouse: \<open>Inr\<close> the warehouse after a
  successful job, \<open>Inl\<close> the error and the warehouse a failed job leaves.
\<close>

definition submit :: "operator \<Rightarrow> warehouse \<Rightarrow> hive_error \<times> warehouse + warehouse" where
  "submit t wh = exec_stmts (job_statements t) (wh_site wh, wh)"



text \<open>
  A warehouse to run the jobs on: no database yet, and one data row readable under the
  location of the external table.
\<close>

definition wh_empty :: warehouse where
  "wh_empty =
     \<lparr>wh_files = (\<lambda>loc. if loc = ''gs://logistics_raw/input_data/''
                         then [[Some ''7'', Some ''2024-01-01'', Some ''Pune'', Some ''Delhi'',
                                Some ''van'', Some ''delivered'', Some ''42'']]
                         else []),
      wh_site = (\<lambda>k. []),
      wh_databases = {},
      wh_tables = (\<lambda>n. None)\<rparr>"

definition wh_ready :: warehouse where
  "wh_ready =
     wh_empty\<lparr>wh_databases := {''logistics_db''},
       wh_tables :=
         [(''logistics_db'', ''logistics_data'') \<mapsto>
            \<lparr>ht_def = logistics_data_schema, ht_rows = []\<rparr>,
          (''logistics_db'', ''logistics_data_partitioned'') \<mapsto>
            \<lparr>ht_def = logistics_data_partitioned_schema, ht_rows = []\<rparr>]\<rparr>"



lemma statements_create_hive_table:
  "job_statements create_hive_table =
     [CREATE_TABLE_IF_NOT_EXISTS (''logistics_db'', ''logistics_data'') logistics_data_schema]"
  by (simp add: job_statements_def create_hive_table_def)

lemma statements_create_partitioned_table:
  "job_statements create_partitioned_table =
     [CREATE_TABLE_IF_NOT_EXISTS (''logistics_db'', ''logistics_data_partitioned'')
        logistics_data_partitioned_schema]"
  by (simp add: job_statements_def create_partitioned_table_def)













lemma create_tables_ready:
  "submit create_hive_table (wh_empty\<lparr>wh_databases := {''logistics_db''}\<rparr>) =
     Inr (wh_empty\<lparr>wh_databases := {''logistics_db''},
            wh_tables := [(''logistics_db'', ''logistics_data'') \<mapsto>
               \<lparr>ht_def = logistics_data_schema, ht_rows = []\<rparr>]\<rparr>)
   \<and> submit create_partitioned_table
        (wh_empty\<lparr>wh_databases := {''logistics_db''},
            wh_tables := [(''logistics_db'', ''logistics_data'') \<mapsto>
               \<lparr>ht_def = logistics_data_schema, ht_rows = []\<rparr>]\<rparr>) = Inr wh_ready"
  by (simp add: submit_def statements_create_hive_table statements_create_partitioned_table
      wh_empty_def wh_ready_def)








section \<open>The step chain executor\<close>

text \<open>
  Modelled from the spec: the data model of section 3 for the outcome of a step
  (ExecutionResult), the status of a run and the run record (PipelineRun), and the
  three components of section 2 the executor dispatches to. The source file holds the
  steps and their order; the code that runs them is the scheduler library the file
  imports, which is not part of the repository. A component takes the step and the
  external state and returns its result and the state it leaves. The run record keeps,
  beside the fields the specification names, the list of the invocations made (step
  index and returned status) and the external state at the end.
\<close>

datatype exec_status = ok | failed | timed_out

record execution_result =
  er_status :: exec_status
  er_detail :: string

datatype run_status = pending | running | succeeded | run_failed | run_timed_out

record 'w components =
  cp_await :: "operator \<Rightarrow> 'w \<Rightarrow> execution_result \<times> 'w"
  cp_submit :: "operator \<Rightarrow> 'w \<Rightarrow> execution_result \<times> 'w"
  cp_archive :: "operator \<Rightarrow> 'w \<Rightarrow> execution_result \<times> 'w"

record 'w pipeline_run =
  pr_status :: run_status
  pr_current_step :: nat
  pr_failing_step :: "(nat \<times> string) option"
  pr_invoked :: "(nat \<times> exec_status) list"
  pr_world :: 'w

text \<open>
  Modelled from the spec: section 4.3, "for each step, dispatches to the Condition
  Poller, Remote Job Client, or Archiver based on step kind".
\<close>

definition dispatch :: "'w components \<Rightarrow> operator \<Rightarrow> 'w \<Rightarrow> execution_result \<times> 'w" where
  "dispatch c t w =
     (case kind_of t of
        sense \<Rightarrow> cp_await c t w
      | submit_job \<Rightarrow> cp_submit c t w
      | archive \<Rightarrow> cp_archive c t w)"

text \<open>
  Modelled from the spec: section 4.3, \<^verbatim>\<open>run\<close>. Steps are executed in order, index 0
  first. On a result that is not \<open>ok\<close> the executor halts at once: no later step is
  executed, the status of the run is the status of the failing result, and the index
  and name of the failing step are recorded. When every step returned \<open>ok\<close> the status
  is \<open>succeeded\<close>.
\<close>

fun run_from :: "'w components \<Rightarrow> operator list \<Rightarrow> nat \<Rightarrow> 'w \<Rightarrow> 'w pipeline_run" where
  "run_from c [] i w =
     \<lparr>pr_status = succeeded, pr_current_step = i, pr_failing_step = None,
      pr_invoked = [], pr_world = w\<rparr>"
| "run_from c (t # ts) i w =
     (case er_status (fst (dispatch c t w)) of
        ok \<Rightarrow>
          (let rest = run_from c ts (Suc i) (snd (dispatch c t w))
           in rest\<lparr>pr_invoked := (i, ok) # pr_invoked rest\<rparr>)
      | failed \<Rightarrow>
          \<lparr>pr_status = run_failed, pr_current_step = i,
           pr_failing_step = Some (i, task_id t),
           pr_invoked = [(i, failed)], pr_world = snd (dispatch c t w)\<rparr>
      | timed_out \<Rightarrow>
          \<lparr>pr_status = run_timed_out, pr_current_step = i,
           pr_failing_step = Some (i, task_id t),
           pr_invoked = [(i, timed_out)], pr_world = snd (dispatch c t w)\<rparr>)"

text \<open>
  Modelled from the spec: the contract of section 4.3, \<^verbatim>\<open>run(steps)\<close>, which starts
  at index 0 and returns the run in its terminal status.
\<close>

definition run :: "'w components \<Rightarrow> operator list \<Rightarrow> 'w \<Rightarrow> 'w pipeline_run" where
  "run c steps w = run_from c steps 0 w"

text \<open>
  For stating what the executor does: the external state after a sequence of steps
  have all been executed, the result step \<open>k\<close> returns when the steps before it have
  been executed, and the run status that section 4.3 gives to a failing result.
\<close>

fun world_after :: "'w components \<Rightarrow> operator list \<Rightarrow> 'w \<Rightarrow> 'w" where
  "world_after c [] w = w"
| "world_after c (t # ts) w = world_after c ts (snd (dispatch c t w))"

definition result_at :: "'w components \<Rightarrow> operator list \<Rightarrow> 'w \<Rightarrow> nat \<Rightarrow> exec_status" where
  "result_at c steps w k =
     er_status (fst (dispatch c (steps ! k) (world_after c (take k steps) w)))"

fun status_of_result :: "exec_status \<Rightarrow> run_status" where
  "status_of_result ok = succeeded"
| "status_of_result failed = run_failed"
| "status_of_result timed_out = run_timed_out"

text \<open>
  Components for trying the executor: each returns the status a table gives for the
  step's name and appends the name to the external state, which so lists the calls made.
\<close>

definition scripted :: "(string \<Rightarrow> exec_status) \<Rightarrow> string list components" where
  "scripted outcome =
     \<lparr>cp_await = (\<lambda>t w. (\<lparr>er_status = outcome (task_id t), er_detail = []\<rparr>, w @ [task_id t])),
      cp_submit = (\<lambda>t w. (\<lparr>er_status = outcome (task_id t), er_detail = []\<rparr>, w @ [task_id t])),
      cp_archive = (\<lambda>t w. (\<lparr>er_status = outcome (task_id t), er_detail = []\<rparr>, w @ [task_id t]))\<rparr>"

definition table_job_fails :: "string \<Rightarrow> exec_status" where
  "table_job_fails n = (if n = ''create_hive_table'' then failed else ok)"

definition never_sensed :: "string \<Rightarrow> exec_status" where
  "never_sensed n = (if n = ''sense_logistics_file'' then timed_out else ok)"

lemma result_at_0: "result_at c (t # ts) w 0 = er_status (fst (dispatch c t w))"
  by (simp add: result_at_def)

lemma result_at_Suc: "result_at c (t # ts) w (Suc k) = result_at c ts (snd (dispatch c t w)) k"
  by (simp add: result_at_def)

lemma run_from_length: "length (pr_invoked (run_from c ts i w)) \<le> length ts"
  by (induction ts arbitrary: i w) (auto split: exec_status.splits simp: Let_def)

lemma run_from_log:
  "k < length (pr_invoked (run_from c ts i w)) \<Longrightarrow>
   pr_invoked (run_from c ts i w) ! k = (i + k, result_at c ts w k)"
proof (induction ts arbitrary: i w k)
  case Nil
  then show ?case by simp
next
  case (Cons t ts)
  show ?case
  proof (cases "er_status (fst (dispatch c t w))")
    case ok
    show ?thesis
    proof (cases k)
      case 0
      then show ?thesis using ok by (simp add: Let_def result_at_0)
    next
      case (Suc j)
      then have "j < length (pr_invoked (run_from c ts (Suc i) (snd (dispatch c t w))))"
        using Cons.prems ok by (simp add: Let_def)
      from Cons.IH[OF this] show ?thesis using ok Suc by (simp add: Let_def result_at_Suc)
    qed
  next
    case failed
    then show ?thesis using Cons.prems by (simp add: result_at_0)
  next
    case timed_out
    then show ?thesis using Cons.prems by (simp add: result_at_0)
  qed
qed

lemma run_from_gate:
  "Suc k < length (pr_invoked (run_from c ts i w)) \<Longrightarrow> result_at c ts w k = ok"
proof (induction ts arbitrary: i w k)
  case Nil
  then show ?case by simp
next
  case (Cons t ts)
  show ?case
  proof (cases "er_status (fst (dispatch c t w))")
    case ok
    show ?thesis
    proof (cases k)
      case 0
      then show ?thesis using ok by (simp add: result_at_0)
    next
      case (Suc j)
      then have "Suc j < length (pr_invoked (run_from c ts (Suc i) (snd (dispatch c t w))))"
        using Cons.prems ok by (simp add: Let_def)
      from Cons.IH[OF this] show ?thesis using Suc by (simp add: result_at_Suc)
    qed
  next
    case failed
    then show ?thesis using Cons.prems by simp
  next
    case timed_out
    then show ?thesis using Cons.prems by simp
  qed
qed

lemma all_less_Suc_shift: "(\<forall>k<Suc n. P k) = (P 0 \<and> (\<forall>k<n. P (Suc k)))"
  by (metis less_Suc_eq_0_disj Suc_less_eq zero_less_Suc)

lemma run_from_succeeded:
  "(pr_status (run_from c ts i w) = succeeded) = (\<forall>k<length ts. result_at c ts w k = ok)"
proof (induction ts arbitrary: i w)
  case Nil
  then show ?case by simp
next
  case (Cons t ts)
  show ?case
    by (cases "er_status (fst (dispatch c t w))")
       (simp_all add: Let_def all_less_Suc_shift result_at_0 result_at_Suc Cons.IH)
qed

lemma run_from_succeeded_all:
  "pr_status (run_from c ts i w) = succeeded \<Longrightarrow> length (pr_invoked (run_from c ts i w)) = length ts"
  by (induction ts arbitrary: i w) (auto split: exec_status.splits simp: Let_def)

lemma run_from_world:
  "pr_world (run_from c ts i w) =
     world_after c (take (length (pr_invoked (run_from c ts i w))) ts) w"
  by (induction ts arbitrary: i w) (auto split: exec_status.splits simp: Let_def)

lemma run_from_halt:
  "pr_status (run_from c ts i w) \<noteq> succeeded \<Longrightarrow>
   pr_invoked (run_from c ts i w) \<noteq> []
   \<and> result_at c ts w (length (pr_invoked (run_from c ts i w)) - 1) \<noteq> ok
   \<and> pr_status (run_from c ts i w) =
       status_of_result (result_at c ts w (length (pr_invoked (run_from c ts i w)) - 1))
   \<and> pr_failing_step (run_from c ts i w) =
       Some (i + (length (pr_invoked (run_from c ts i w)) - 1),
             task_id (ts ! (length (pr_invoked (run_from c ts i w)) - 1)))"
proof (induction ts arbitrary: i w)
  case Nil
  then show ?case by simp
next
  case (Cons t ts)
  show ?case
  proof (cases "er_status (fst (dispatch c t w))")
    case ok
    let ?r = "run_from c ts (Suc i) (snd (dispatch c t w))"
    have ns: "pr_status ?r \<noteq> succeeded" using Cons.prems ok by (simp add: Let_def)
    from Cons.IH[OF ns] obtain n where n: "length (pr_invoked ?r) = Suc n"
      by (cases "pr_invoked ?r") auto
    from Cons.IH[OF ns] show ?thesis
      using ok n by (simp add: Let_def result_at_Suc)
  next
    case failed
    then show ?thesis by (simp add: result_at_0)
  next
    case timed_out
    then show ?thesis by (simp add: result_at_0)
  qed
qed

text \<open>
  C1. For every sequence of steps, every choice of components and every initial state:
  the executor invokes the steps in order from index 0, each at most once, and records
  for step \<open>k\<close> the result that step returned; step \<open>k + 1\<close> is invoked only if step \<open>k\<close>
  returned \<open>ok\<close>; the final state is the state after the invoked steps only. The
  status is \<open>succeeded\<close> exactly when all steps return \<open>ok\<close>, and then all steps were
  invoked. Otherwise the last invoked step is the first that did not return \<open>ok\<close>, the
  status is \<open>failed\<close> or \<open>timed_out\<close> as that step's result, and its index and name are
  recorded.
\<close>

theorem C1_fail_fast:
  "length (pr_invoked (run c steps w)) \<le> length steps
   \<and> (\<forall>k<length (pr_invoked (run c steps w)).
         pr_invoked (run c steps w) ! k = (k, result_at c steps w k))
   \<and> (\<forall>k. Suc k < length (pr_invoked (run c steps w)) \<longrightarrow> result_at c steps w k = ok)
   \<and> pr_world (run c steps w) =
        world_after c (take (length (pr_invoked (run c steps w))) steps) w
   \<and> ((pr_status (run c steps w) = succeeded) = (\<forall>k<length steps. result_at c steps w k = ok))
   \<and> (pr_status (run c steps w) = succeeded \<longrightarrow>
         length (pr_invoked (run c steps w)) = length steps)
   \<and> (pr_status (run c steps w) \<noteq> succeeded \<longrightarrow>
         pr_invoked (run c steps w) \<noteq> []
         \<and> result_at c steps w (length (pr_invoked (run c steps w)) - 1) \<noteq> ok
         \<and> pr_status (run c steps w) =
             status_of_result (result_at c steps w (length (pr_invoked (run c steps w)) - 1))
         \<and> (pr_status (run c steps w) = run_failed \<or> pr_status (run c steps w) = run_timed_out)
         \<and> pr_failing_step (run c steps w) =
             Some (length (pr_invoked (run c steps w)) - 1,
                   task_id (steps ! (length (pr_invoked (run c steps w)) - 1))))"
proof -
  have a: "length (pr_invoked (run c steps w)) \<le> length steps"
    unfolding run_def by (rule run_from_length)
  have b: "\<forall>k<length (pr_invoked (run c steps w)).
         pr_invoked (run c steps w) ! k = (k, result_at c steps w k)"
    unfolding run_def using run_from_log[of _ c steps 0 w] by simp
  have g: "\<forall>k. Suc k < length (pr_invoked (run c steps w)) \<longrightarrow> result_at c steps w k = ok"
    unfolding run_def using run_from_gate[of _ c steps 0 w] by blast
  have wd: "pr_world (run c steps w) =
        world_after c (take (length (pr_invoked (run c steps w))) steps) w"
    unfolding run_def by (rule run_from_world)
  have s: "(pr_status (run c steps w) = succeeded) = (\<forall>k<length steps. result_at c steps w k = ok)"
    unfolding run_def by (rule run_from_succeeded)
  have sa: "pr_status (run c steps w) = succeeded \<longrightarrow>
         length (pr_invoked (run c steps w)) = length steps"
    unfolding run_def using run_from_succeeded_all[of c steps 0 w] by blast
  have h: "pr_status (run c steps w) \<noteq> succeeded \<longrightarrow>
         pr_invoked (run c steps w) \<noteq> []
         \<and> result_at c steps w (length (pr_invoked (run c steps w)) - 1) \<noteq> ok
         \<and> pr_status (run c steps w) =
             status_of_result (result_at c steps w (length (pr_invoked (run c steps w)) - 1))
         \<and> (pr_status (run c steps w) = run_failed \<or> pr_status (run c steps w) = run_timed_out)
         \<and> pr_failing_step (run c steps w) =
             Some (length (pr_invoked (run c steps w)) - 1,
                   task_id (steps ! (length (pr_invoked (run c steps w)) - 1)))"
  proof
    assume ns: "pr_status (run c steps w) \<noteq> succeeded"
    have r: "pr_status (run c steps w) = run_failed \<or> pr_status (run c steps w) = run_timed_out"
      using run_from_halt[of c steps 0 w] ns unfolding run_def
      by (cases "result_at c steps w (length (pr_invoked (run_from c steps 0 w)) - 1)") auto
    show "pr_invoked (run c steps w) \<noteq> []
         \<and> result_at c steps w (length (pr_invoked (run c steps w)) - 1) \<noteq> ok
         \<and> pr_status (run c steps w) =
             status_of_result (result_at c steps w (length (pr_invoked (run c steps w)) - 1))
         \<and> (pr_status (run c steps w) = run_failed \<or> pr_status (run c steps w) = run_timed_out)
         \<and> pr_failing_step (run c steps w) =
             Some (length (pr_invoked (run c steps w)) - 1,
                   task_id (steps ! (length (pr_invoked (run c steps w)) - 1)))"
      using run_from_halt[of c steps 0 w] ns r unfolding run_def by simp
  qed
  show ?thesis using a b g wd s sa h by blast
qed

text \<open>
  On the configured chain: when the table job fails, the sense step and the database
  job are invoked and the two later jobs and the archive step are not; when every
  step returns \<open>ok\<close>, all six are invoked and the run succeeds; when the sense step
  times out, nothing else is invoked and the run is \<open>timed_out\<close>.
\<close>

lemma run_table_job_fails:
  "run (scripted table_job_fails) (tasks dag) [] =
     \<lparr>pr_status = run_failed, pr_current_step = 2,
      pr_failing_step = Some (2, ''create_hive_table''),
      pr_invoked = [(0, ok), (1, ok), (2, failed)],
      pr_world = [''sense_logistics_file'', ''create_hive_database'', ''create_hive_table'']\<rparr>"
  by (simp add: run_def dag_tasks dispatch_def scripted_def table_job_fails_def task_id_def
      operator_defs Let_def numeral_2_eq_2)

lemma run_never_sensed:
  "run (scripted never_sensed) (tasks dag) [] =
     \<lparr>pr_status = run_timed_out, pr_current_step = 0,
      pr_failing_step = Some (0, ''sense_logistics_file''),
      pr_invoked = [(0, timed_out)],
      pr_world = [''sense_logistics_file'']\<rparr>"
  by (simp add: run_def dag_tasks dispatch_def scripted_def never_sensed_def task_id_def
      operator_defs Let_def)

lemma run_all_ok:
  "run (scripted (\<lambda>n. ok)) (tasks dag) [] =
     \<lparr>pr_status = succeeded, pr_current_step = 6,
      pr_failing_step = None,
      pr_invoked = [(0, ok), (1, ok), (2, ok), (3, ok), (4, ok), (5, ok)],
      pr_world = map task_id (tasks dag)\<rparr>"
  by (simp add: run_def dag_tasks dispatch_def scripted_def task_id_def
      operator_defs Let_def eval_nat_numeral)

theorem C1_fail_fast_witness:
  "pr_invoked (run (scripted table_job_fails) (tasks dag) []) = [(0, ok), (1, ok), (2, failed)]
   \<and> result_at (scripted table_job_fails) (tasks dag) [] 0 = ok
   \<and> result_at (scripted table_job_fails) (tasks dag) [] 1 = ok
   \<and> result_at (scripted table_job_fails) (tasks dag) [] 2 = failed
   \<and> pr_status (run (scripted table_job_fails) (tasks dag) []) = run_failed
   \<and> pr_failing_step (run (scripted table_job_fails) (tasks dag) []) = Some (2, ''create_hive_table'')
   \<and> pr_world (run (scripted table_job_fails) (tasks dag) []) =
       [''sense_logistics_file'', ''create_hive_database'', ''create_hive_table'']
   \<and> pr_status (run (scripted (\<lambda>n. ok)) (tasks dag) []) = succeeded
   \<and> length (pr_invoked (run (scripted (\<lambda>n. ok)) (tasks dag) [])) = length (tasks dag)
   \<and> pr_invoked (run (scripted never_sensed) (tasks dag) []) = [(0, timed_out)]
   \<and> pr_status (run (scripted never_sensed) (tasks dag) []) = run_timed_out
   \<and> pr_world (run (scripted never_sensed) (tasks dag) []) = [''sense_logistics_file'']"
proof -
  let ?c = "scripted table_job_fails"
  let ?d = "scripted never_sensed"
  have dl: "pr_invoked (run ?d (tasks dag) []) = [(0, timed_out)]"
    by (simp add: run_never_sensed)
  have dn: "pr_status (run ?d (tasks dag) []) \<noteq> succeeded"
    by (simp add: run_never_sensed)
  have dr: "result_at ?d (tasks dag) [] 0 = timed_out"
    using C1_fail_fast[of ?d "tasks dag" "[]"] dl by simp
  have ds: "pr_status (run ?d (tasks dag) []) = run_timed_out"
    using C1_fail_fast[of ?d "tasks dag" "[]"] dn dl dr by simp
  have dw: "pr_world (run ?d (tasks dag) []) = [''sense_logistics_file'']"
    by (simp add: run_never_sensed)
  have l: "pr_invoked (run ?c (tasks dag) []) = [(0, ok), (1, ok), (2, failed)]"
    by (simp add: run_table_job_fails)
  have n: "pr_status (run ?c (tasks dag) []) \<noteq> succeeded"
    by (simp add: run_table_job_fails)
  have s: "pr_status (run (scripted (\<lambda>n. ok)) (tasks dag) []) = succeeded"
    by (simp add: run_all_ok)
  have t: "task_id (tasks dag ! 2) = ''create_hive_table''"
    by (simp add: dag_tasks task_id_def operator_defs numeral_2_eq_2)
  note th = C1_fail_fast[of ?c "tasks dag" "[]"]
  have r0: "result_at ?c (tasks dag) [] 0 = ok" using th l by simp
  have r1: "result_at ?c (tasks dag) [] 1 = ok" using th l by simp
  have r2: "result_at ?c (tasks dag) [] 2 = failed"
  proof -
    from th have "\<forall>k<length (pr_invoked (run ?c (tasks dag) [])).
         pr_invoked (run ?c (tasks dag) []) ! k = (k, result_at ?c (tasks dag) [] k)" by blast
    then have "2 < length (pr_invoked (run ?c (tasks dag) [])) \<longrightarrow>
        pr_invoked (run ?c (tasks dag) []) ! 2 = (2, result_at ?c (tasks dag) [] 2)"
      by blast
    then show ?thesis using l by simp
  qed
  have st: "pr_status (run ?c (tasks dag) []) = run_failed"
    using th n l r2 by (simp add: numeral_2_eq_2)
  have fs: "pr_failing_step (run ?c (tasks dag) []) = Some (2, ''create_hive_table'')"
    using th n l t by (simp add: numeral_2_eq_2)
  have wd: "pr_world (run ?c (tasks dag) []) =
       [''sense_logistics_file'', ''create_hive_database'', ''create_hive_table'']"
    by (simp add: run_table_job_fails)
  have la: "length (pr_invoked (run (scripted (\<lambda>n. ok)) (tasks dag) [])) = length (tasks dag)"
    using C1_fail_fast[of "scripted (\<lambda>n. ok)" "tasks dag" "[]"] s by blast
  show ?thesis using l r0 r1 r2 st fs wd s la dl ds dw by simp
qed

end
